theory Spec2Isabelle
  imports Complex_Main "HOL-Library.Word"
begin

section \<open>Arrays, images and errors\<close>

text \<open>
  The program is one Python function, \<^verbatim>\<open>compute_aesthetic_charge(image_path, kernel_size,
  weights)\<close> in \<^verbatim>\<open>src/aesthetic_charge.py\<close>, built from calls into OpenCV, NumPy and
  scikit-image. A two-dimensional NumPy array is a list of rows. The image that
  \<^verbatim>\<open>cv2.imread\<close> decodes has three 8-bit channels per pixel, in the order blue, green, red.

  Arithmetic on \<^verbatim>\<open>float64\<close> arrays is taken as exact arithmetic on \<open>real\<close>, with two
  exceptions where the rounding decides a property of the result:
  \<^item> the \<^verbatim>\<open>float32\<close> addition of the floor \<^verbatim>\<open>1e-9\<close> inside the entropy (see \<open>f32\<close>
    below): the rounded and the exact result differ in sign;
  \<^item> the \<^verbatim>\<open>float64\<close> division \<^verbatim>\<open>np.ones((k, k)) / (k ** 2)\<close> that makes the kernel (see
    \<open>f64\<close> and \<open>np_div\<close>): \<open>1 / 25\<close> is not a \<^verbatim>\<open>float64\<close>, so the entries of the
    default kernel do not sum to 1 and the box filter of a constant channel is not that
    constant.
  The sums inside \<^verbatim>\<open>cv2.filter2D\<close>, \<^verbatim>\<open>cv2.Laplacian\<close> and \<^verbatim>\<open>np.sum\<close> and the
  elementwise products, differences and sums of the source are exact here; in the
  program each of them is rounded, so a value of the program can differ from the value
  here in its last digits. The limits of memory and of array size are not modelled
  either: for a \<^verbatim>\<open>kernel_size\<close> so large that \<^verbatim>\<open>np.ones\<close> cannot build the kernel the
  source raises, and the definition below still computes a field.
\<close>

type_synonym pixel = "8 word \<times> 8 word \<times> 8 word"
type_synonym image = "pixel list list"
type_synonym gray_image = "8 word list list"
type_synonym field = "real list list"

definition height :: "'a list list \<Rightarrow> nat" where
  "height m = length m"

definition width :: "'a list list \<Rightarrow> nat" where
  "width m = (case m of [] \<Rightarrow> 0 | r # _ \<Rightarrow> length r)"

text \<open>\<open>shape h w m\<close>: the array \<open>m\<close> has \<open>h\<close> rows of \<open>w\<close> entries each.\<close>

definition shape :: "nat \<Rightarrow> nat \<Rightarrow> 'a list list \<Rightarrow> bool" where
  "shape h w m = (length m = h \<and> list_all (\<lambda>r. length r = w) m)"

text \<open>
  What \<^verbatim>\<open>cv2.imread\<close> returns when it returns an array: at least one row, at least one
  column, all rows of one length.
\<close>

definition decoded :: "'a list list \<Rightarrow> bool" where
  "decoded m = (0 < height m \<and> 0 < width m \<and> shape (height m) (width m) m)"

text \<open>
  The exceptions the function can leave with. \<open>CvError f\<close> is \<^verbatim>\<open>cv2.error\<close>, raised by a failed
  assertion inside the OpenCV function \<open>f\<close>; \<open>ValueError msg\<close> is Python's \<^verbatim>\<open>ValueError\<close>,
  \<open>msg\<close> being the leading words of its message (Python adds the counts). The source
  defines no exception class of its own and has no \<^verbatim>\<open>raise\<close>.
\<close>

datatype error = CvError string | ValueError string

fun error_class :: "error \<Rightarrow> string" where
  "error_class (CvError f) = ''cv2.error''"
| "error_class (ValueError msg) = ''ValueError''"

text \<open>
  The two colour conversions are library code whose arithmetic no property below depends
  on; they are parameters. Both work pixel by pixel: \<open>rgb2lab\<close> is
  \<^verbatim>\<open>skimage.color.rgb2lab\<close> on one RGB pixel, \<open>bgr2gray\<close> is
  \<^verbatim>\<open>cv2.cvtColor(_, cv2.COLOR_BGR2GRAY)\<close> on one BGR pixel.
\<close>

record colour_lib =
  rgb2lab :: "pixel \<Rightarrow> real \<times> real \<times> real"
  bgr2gray :: "pixel \<Rightarrow> 8 word"

section \<open>Rounding to a binary floating-point format\<close>

text \<open>
  \<open>round_even\<close> rounds to the nearest integer, ties to the even one. \<open>f64\<close> rounds a real
  to the nearest number with a 53-bit significand (binary64), \<open>f32\<close> further below to the
  nearest with a 24-bit significand (binary32); the exponent range is not bounded.
\<close>

definition round_even :: "real \<Rightarrow> int" where
  "round_even y =
     (let n = \<lfloor>y\<rfloor>; d = y - of_int n
      in if d < 1 / 2 then n else if 1 / 2 < d then n + 1 else if even n then n else n + 1)"

definition f64 :: "real \<Rightarrow> real" where
  "f64 x =
     (if x = 0 then 0
      else let e = \<lfloor>log 2 \<bar>x\<bar>\<rfloor>; u = 2 powr (of_int e - 52)
           in u * of_int (round_even (x / u)))"

section \<open>NumPy operations\<close>

definition tabulate2 :: "nat \<Rightarrow> nat \<Rightarrow> (nat \<Rightarrow> nat \<Rightarrow> 'a) \<Rightarrow> 'a list list" where
  "tabulate2 h w f = map (\<lambda>i. map (f i) [0..<w]) [0..<h]"

text \<open>\<^verbatim>\<open>np.ones((k, k))\<close>\<close>

definition np_ones :: "nat \<Rightarrow> field" where
  "np_ones k = replicate k (replicate k 1)"

text \<open>
  \<^verbatim>\<open>X / s\<close> for a scalar \<open>s\<close>: one \<^verbatim>\<open>float64\<close> division for each entry, rounded. The
  source uses it once, for the kernel: every entry of \<^verbatim>\<open>np.ones((k, k)) / (k ** 2)\<close> is
  the \<^verbatim>\<open>float64\<close> nearest to \<open>1 / k\<^sup>2\<close>.
\<close>

definition np_div :: "field \<Rightarrow> real \<Rightarrow> field" where
  "np_div X s = map (map (\<lambda>x. f64 (x / s))) X"

text \<open>\<^verbatim>\<open>s * X\<close> for a scalar \<open>s\<close>; \<^verbatim>\<open>X - Y\<close>, \<^verbatim>\<open>X + Y\<close> for arrays of one shape;
  \<^verbatim>\<open>np.abs(X)\<close>; \<^verbatim>\<open>np.full_like(X, s)\<close>.\<close>

definition np_scale :: "real \<Rightarrow> field \<Rightarrow> field" where
  "np_scale s X = map (map (\<lambda>x. s * x)) X"

definition np_sub :: "field \<Rightarrow> field \<Rightarrow> field" where
  "np_sub X Y = map2 (map2 (\<lambda>x y. x - y)) X Y"

definition np_add :: "field \<Rightarrow> field \<Rightarrow> field" where
  "np_add X Y = map2 (map2 (\<lambda>x y. x + y)) X Y"

definition np_abs :: "field \<Rightarrow> field" where
  "np_abs X = map (map abs) X"

definition np_full_like :: "field \<Rightarrow> real \<Rightarrow> field" where
  "np_full_like X s = map (map (\<lambda>_. s)) X"

section \<open>OpenCV operations\<close>

text \<open>
  \<^verbatim>\<open>cv2.imread(path)\<close> reads the disk. The disk is a map from a path to the decoded
  content of the file there; \<open>None\<close> where no file can be read or decoded.
\<close>

type_synonym disk = "string \<Rightarrow> image option"

definition imread :: "disk \<Rightarrow> string \<Rightarrow> image option" where
  "imread fs path = fs path"

definition cvtColor_BGR2RGB :: "image \<Rightarrow> image" where
  "cvtColor_BGR2RGB bgr = map (map (\<lambda>(b, g, r). (r, g, b))) bgr"

definition cvtColor_BGR2GRAY :: "colour_lib \<Rightarrow> image \<Rightarrow> gray_image" where
  "cvtColor_BGR2GRAY lib bgr = map (map (bgr2gray lib)) bgr"

text \<open>
  Neither \<^verbatim>\<open>cv2.filter2D\<close> nor \<^verbatim>\<open>cv2.Laplacian\<close> is given a border type in the source, so
  both run with OpenCV's default, \<^verbatim>\<open>BORDER_REFLECT_101\<close> (\<^verbatim>\<open>gfedcb|abcdefgh|gfedcba\<close>):
  coordinate \<open>p\<close> outside \<open>0..len-1\<close> is mirrored at the first and the last sample, which
  are not repeated.
\<close>

definition borderInterpolate :: "int \<Rightarrow> nat \<Rightarrow> nat" where
  "borderInterpolate p len =
     (if len = 1 then 0
      else let m = 2 * int len - 2; r = p mod m
           in nat (if r < int len then r else m - r))"

text \<open>
  \<^verbatim>\<open>cv2.filter2D(src, -1, kernel)\<close>: correlation of \<open>src\<close> with \<open>kernel\<close>, anchored at the
  kernel centre \<open>(kw div 2, kh div 2)\<close>, output of the shape and depth of \<open>src\<close>.
\<close>

definition filter2D :: "field \<Rightarrow> field \<Rightarrow> field" where
  "filter2D src kernel' =
     (let h = height src; w = width src; kh = height kernel'; kw = width kernel'
      in tabulate2 h w (\<lambda>i j.
           \<Sum>u\<leftarrow>[0..<kh]. \<Sum>v\<leftarrow>[0..<kw].
             kernel' ! u ! v *
             src ! borderInterpolate (int i + int u - int (kh div 2)) h
                 ! borderInterpolate (int j + int v - int (kw div 2)) w))"

text \<open>
  \<^verbatim>\<open>cv2.Laplacian(src, cv2.CV_64F)\<close>: the aperture size is left at its default 1, for which
  OpenCV filters with the fixed 3 x 3 kernel below (scale 1, delta 0).
\<close>

definition Laplacian :: "field \<Rightarrow> field" where
  "Laplacian src = filter2D src [[0, 1, 0], [1, -4, 1], [0, 1, 0]]"

text \<open>
  \<^verbatim>\<open>cv2.calcHist([gray], [0], None, [256], [0, 256])\<close>: bin \<open>v\<close> counts the pixels of
  intensity \<open>v\<close>.
\<close>

definition calcHist :: "gray_image \<Rightarrow> real list" where
  "calcHist gray = map (\<lambda>v. real (count_list (map unat (concat gray)) v)) [0..<256]"

section \<open>The entropy scalar\<close>

text \<open>
  \<^verbatim>\<open>cv2.calcHist\<close> returns a \<^verbatim>\<open>float32\<close> array and NumPy keeps \<^verbatim>\<open>float32\<close> when a Python
  scalar is added to it, so \<^verbatim>\<open>hist + 1e-9\<close> is a binary32 addition: the scalar is converted
  to binary32 and the sum is rounded to binary32. \<open>f32\<close> is that rounding, to the nearest
  number with a 24-bit significand, ties to the even significand (the sums in question
  lie between \<open>10\<^sup>-\<^sup>9\<close> and \<open>1 + 10\<^sup>-\<^sup>9\<close>).
  In binary32 \<open>1 + 10\<^sup>-\<^sup>9\<close> is 1, so the logarithm of a full bin is exactly 0; in exact
  arithmetic it would be positive and the entropy of a one-bin histogram negative. The
  division, the logarithm, the products and the sum of the entropy are exact here.
\<close>

definition f32 :: "real \<Rightarrow> real" where
  "f32 x =
     (if x = 0 then 0
      else let e = \<lfloor>log 2 \<bar>x\<bar>\<rfloor>; u = 2 powr (of_int e - 23)
           in u * of_int (round_even (x / u)))"

text \<open>\<^verbatim>\<open>hist = hist / hist.sum()\<close> and \<^verbatim>\<open>-np.sum(hist * np.log2(hist + 1e-9))\<close>\<close>

definition normalise :: "real list \<Rightarrow> real list" where
  "normalise hist = map (\<lambda>c. c / sum_list hist) hist"

definition entropy_of :: "real list \<Rightarrow> real" where
  "entropy_of hist = - (\<Sum>p\<leftarrow>hist. p * log 2 (f32 (p + f32 (1 / 10 ^ 9))))"

section \<open>compute_aesthetic_charge\<close>

text \<open>
  The function, statement by statement. Its failures are the exceptions of the library
  calls, in the order the source reaches them:
  \<^item> \<^verbatim>\<open>cv2.imread\<close> returns \<^verbatim>\<open>None\<close> for a file it cannot read or decode, and
    \<^verbatim>\<open>cv2.cvtColor\<close> then fails its assertion that the source is not empty;
  \<^item> \<^verbatim>\<open>np.ones\<close> raises \<^verbatim>\<open>ValueError\<close> for a negative \<^verbatim>\<open>kernel_size\<close>;
  \<^item> \<^verbatim>\<open>cv2.filter2D\<close> fails its anchor assertion for the empty kernel of
    \<^verbatim>\<open>kernel_size = 0\<close>;
  \<^item> the unpacking \<^verbatim>\<open>w1, w2, w3, w4, w5 = weights\<close> raises \<^verbatim>\<open>ValueError\<close> unless there are
    exactly five weights, with one message for fewer and another for more; it is reached
    after the filters and the entropy.
\<close>

definition compute_aesthetic_charge ::
  "colour_lib \<Rightarrow> disk \<Rightarrow> string \<Rightarrow> int \<Rightarrow> real list \<Rightarrow> error + (field \<times> image)" where
  "compute_aesthetic_charge lib fs image_path kernel_size weights =
     (case imread fs image_path of
        None \<Rightarrow> Inl (CvError ''cvtColor'')
      | Some bgr \<Rightarrow>
          if height bgr = 0 \<or> width bgr = 0 then Inl (CvError ''cvtColor'')
          else
            let rgb = cvtColor_BGR2RGB bgr;
                lab = map (map (rgb2lab lib)) rgb;
                L = map (map fst) lab;
                a = map (map (\<lambda>c. fst (snd c))) lab;
                b = map (map (\<lambda>c. snd (snd c))) lab
            in if kernel_size < 0 then Inl (ValueError ''negative dimensions are not allowed'')
               else
                 let kernel' = np_div (np_ones (nat kernel_size)) (real_of_int (kernel_size ^ 2))
                 in if kernel_size = 0 then Inl (CvError ''filter2D'')
                    else
                      let L_mean = filter2D L kernel';
                          a_mean = filter2D a kernel';
                          b_mean = filter2D b kernel';
                          L_diff = np_abs (np_sub L L_mean);
                          a_diff = np_abs (np_sub a a_mean);
                          b_diff = np_abs (np_sub b b_mean);
                          L_lap = Laplacian L;
                          L_lap_abs = np_abs L_lap;
                          gray = cvtColor_BGR2GRAY lib bgr;
                          hist = calcHist gray;
                          hist = normalise hist;
                          entropy_val = entropy_of hist;
                          entropy = np_full_like L entropy_val
                      in (case weights of
                            [w1, w2, w3, w4, w5] \<Rightarrow>
                              let q = np_add (np_add (np_add (np_add
                                        (np_scale w1 L_diff)
                                        (np_scale w2 a_diff))
                                        (np_scale w3 b_diff))
                                        (np_scale w4 L_lap_abs))
                                        (np_scale w5 entropy)
                              in Inr (q, rgb)
                          | _ \<Rightarrow>
                              Inl (ValueError
                                (if length weights < 5 then ''not enough values to unpack''
                                 else ''too many values to unpack''))))"




section \<open>Named parts of the computation\<close>

text \<open>
  The intermediate values of \<open>compute_aesthetic_charge\<close> that the statements below speak
  about: the three Lab channels and the entropy scalar of a decoded image.
\<close>

definition lab_L :: "colour_lib \<Rightarrow> image \<Rightarrow> field" where
  "lab_L lib bgr = map (map fst) (map (map (rgb2lab lib)) (cvtColor_BGR2RGB bgr))"

definition lab_a :: "colour_lib \<Rightarrow> image \<Rightarrow> field" where
  "lab_a lib bgr = map (map (\<lambda>c. fst (snd c))) (map (map (rgb2lab lib)) (cvtColor_BGR2RGB bgr))"

definition lab_b :: "colour_lib \<Rightarrow> image \<Rightarrow> field" where
  "lab_b lib bgr = map (map (\<lambda>c. snd (snd c))) (map (map (rgb2lab lib)) (cvtColor_BGR2RGB bgr))"

definition entropy_val :: "colour_lib \<Rightarrow> image \<Rightarrow> real" where
  "entropy_val lib bgr = entropy_of (normalise (calcHist (cvtColor_BGR2GRAY lib bgr)))"

text \<open>
  The local mean in the words of the specification: box filtering over the \<open>k\<close> x \<open>k\<close>
  window around pixel \<open>(i, j)\<close>, the window being anchored at \<open>k div 2\<close> and continued over
  the border by reflection, every sample with the same weight, the \<^verbatim>\<open>float64\<close> nearest
  to \<open>1 / k\<^sup>2\<close>. The function itself calls \<open>filter2D\<close> with the kernel
  \<^verbatim>\<open>np.ones((k, k)) / k ** 2\<close>; \<open>filter2D_box\<close> below relates the two.
\<close>

definition local_mean :: "nat \<Rightarrow> field \<Rightarrow> nat \<Rightarrow> nat \<Rightarrow> real" where
  "local_mean k X i j =
     (\<Sum>u\<leftarrow>[0..<k]. \<Sum>v\<leftarrow>[0..<k].
        f64 (1 / real (k * k)) *
        X ! borderInterpolate (int i + int u - int (k div 2)) (height X)
          ! borderInterpolate (int j + int v - int (k div 2)) (width X))"

text \<open>The number of occupied bins of a histogram.\<close>

definition occupied_bins :: "real list \<Rightarrow> nat" where
  "occupied_bins hist = length (filter (\<lambda>c. 0 < c) hist)"

text \<open>A flat image: \<open>h\<close> rows of \<open>w\<close> copies of one pixel.\<close>

definition flat :: "nat \<Rightarrow> nat \<Rightarrow> pixel \<Rightarrow> image" where
  "flat h w px = replicate h (replicate w px)"

section \<open>Sample inputs\<close>

text \<open>
  Concrete inputs at which the theorems are instantiated. \<open>sample_lib\<close> stands in for the
  two colour conversions where an instance needs one; no theorem depends on its values.
  The default parameters of the source are \<^verbatim>\<open>kernel_size=5\<close> and
  \<^verbatim>\<open>weights=(1.0, 1.0, 1.0, 0.5, 0.3)\<close>.
\<close>

definition sample_lib :: colour_lib where
  "sample_lib =
     \<lparr>rgb2lab = (\<lambda>(r, g, b). (real (unat g), real (unat r) - real (unat g),
                                   real (unat g) - real (unat b))),
      bgr2gray = (\<lambda>(b, g, r). g)\<rparr>"

definition default_weights :: "real list" where
  "default_weights = [1, 1, 1, 1 / 2, 3 / 10]"

definition gray_4x4 :: image where
  "gray_4x4 = flat 4 4 (128, 128, 128)"

definition two_pixels :: image where
  "two_pixels = [[(0, 0, 0), (255, 255, 255)]]"



definition no_file :: disk where
  "no_file = (\<lambda>path. None)"

definition one_file :: "string \<Rightarrow> image \<Rightarrow> disk" where
  "one_file name img = (\<lambda>path. if path = name then Some img else None)"

section \<open>Rounding to binary32\<close>

lemma round_even_upper: "of_int (round_even y) \<le> y + 1 / 2"
  unfolding round_even_def Let_def by (auto simp: not_less) linarith+

lemma round_even_lower: "y - 1 / 2 \<le> of_int (round_even y)"
  unfolding round_even_def Let_def by (auto simp: not_less) linarith+

lemma round_even_le_int: "y \<le> of_int n \<Longrightarrow> round_even y \<le> n"
  unfolding round_even_def Let_def
  by (auto simp: not_less) linarith+

lemma round_even_ge_int: "of_int n \<le> y \<Longrightarrow> n \<le> round_even y"
  unfolding round_even_def Let_def
  by (auto simp: not_less) linarith+

lemma f32_pos:
  assumes "0 < x"
  shows "f32 x = 2 powr (of_int \<lfloor>log 2 x\<rfloor> - 23) * of_int (round_even (x / 2 powr (of_int \<lfloor>log 2 x\<rfloor> - 23)))"
  using assms by (simp add: f32_def Let_def)

lemma binade:
  assumes "0 < x"
  shows "2 powr of_int \<lfloor>log 2 x\<rfloor> \<le> x" and "x < 2 powr (of_int \<lfloor>log 2 x\<rfloor> + 1)"
  using floor_log_eq_powr_iff [of x 2 "\<lfloor>log 2 x\<rfloor>"] assms by simp_all


lemma f32_error:
  assumes "0 < x"
  shows "\<bar>f32 x - x\<bar> \<le> 2 powr (of_int \<lfloor>log 2 x\<rfloor> - 24)"
proof -
  define u :: real where "u = 2 powr (of_int \<lfloor>log 2 x\<rfloor> - 23)"
  have u: "0 < u" by (simp add: u_def)
  have half: "2 powr (of_int \<lfloor>log 2 x\<rfloor> - 24) = u / 2"
    by (simp add: u_def powr_diff)
  have f: "f32 x = u * of_int (round_even (x / u))"
    using f32_pos [OF assms] by (simp add: u_def)
  have "of_int (round_even (x / u)) \<le> x / u + 1 / 2" by (rule round_even_upper)
  then have "u * of_int (round_even (x / u)) \<le> u * (x / u + 1 / 2)"
    using u by (simp only: mult_le_cancel_left_pos)
  then have up: "f32 x \<le> x + u / 2" using u f by (simp add: algebra_simps)
  have "x / u - 1 / 2 \<le> of_int (round_even (x / u))" by (rule round_even_lower)
  then have "u * (x / u - 1 / 2) \<le> u * of_int (round_even (x / u))"
    using u by (simp only: mult_le_cancel_left_pos)
  then have lo: "x - u / 2 \<le> f32 x" using u f by (simp add: algebra_simps)
  show ?thesis using up lo half by (simp add: abs_le_iff)
qed

lemma f32_le_pow:
  assumes "0 < x"
  shows "f32 x \<le> 2 powr (of_int \<lfloor>log 2 x\<rfloor> + 1)"
proof -
  define u :: real where "u = 2 powr (of_int \<lfloor>log 2 x\<rfloor> - 23)"
  have u: "0 < u" by (simp add: u_def)
  have top: "2 powr (of_int \<lfloor>log 2 x\<rfloor> + 1) = u * 2 ^ 24"
    by (simp add: u_def powr_diff powr_add)
  have f: "f32 x = u * of_int (round_even (x / u))"
    using f32_pos [OF assms] by (simp add: u_def)
  have "x \<le> u * 2 ^ 24" using binade(2) [OF assms] top by simp
  then have "x / u \<le> of_int (2 ^ 24)" using u by (simp add: field_simps)
  then have "round_even (x / u) \<le> 2 ^ 24" by (rule round_even_le_int)
  then have "(of_int (round_even (x / u)) :: real) \<le> 2 ^ 24"
    by (metis of_int_le_iff of_int_numeral of_int_power)
  then have "u * of_int (round_even (x / u)) \<le> u * 2 ^ 24"
    using u by (simp only: mult_le_cancel_left_pos)
  then show ?thesis using f top by simp
qed

lemma f32_one:
  assumes "1 \<le> x" and "x \<le> 1 + 1 / 2 ^ 25"
  shows "f32 x = 1"
proof -
  have pos: "0 < x" using assms by simp
  have e: "\<lfloor>log 2 x\<rfloor> = 0"
    using floor_log_eq_powr_iff [of x 2 0] pos assms by simp
  have f: "f32 x = 2 powr (- 23) * of_int (round_even (x / 2 powr (- 23)))"
    using f32_pos [OF pos] e by simp
  have p: "(2::real) powr (- 23) = 1 / 2 ^ 23"
    by (simp add: powr_neg_numeral)
  have y: "x / 2 powr (- 23) = x * 2 ^ 23" by (simp add: p)
  have lo: "of_int (2 ^ 23) \<le> x * 2 ^ 23" using assms by simp
  have hi: "x * 2 ^ 23 \<le> 2 ^ 23 + 1 / 4" using assms by simp
  have "\<lfloor>x * 2 ^ 23\<rfloor> = 2 ^ 23"
    using lo hi by (simp add: floor_eq_iff)
  then have "round_even (x * 2 ^ 23) = 2 ^ 23"
    using hi by (simp add: round_even_def Let_def)
  then show ?thesis using f y p by simp
qed


lemma f32_positive:
  assumes "0 < x"
  shows "0 < f32 x"
proof -
  have "2 powr (of_int \<lfloor>log 2 x\<rfloor> - 24) = (2::real) powr of_int \<lfloor>log 2 x\<rfloor> / 2 ^ 24"
    by (simp add: powr_diff)
  also have "\<dots> \<le> x / 2 ^ 24" using binade(1) [OF assms] by (simp add: divide_right_mono)
  also have "\<dots> < x" using assms by simp
  finally have "2 powr (of_int \<lfloor>log 2 x\<rfloor> - 24) < x" .
  then show ?thesis using f32_error [OF assms] by (simp add: abs_le_iff)
qed

lemma floor_bounds:
  "0 < f32 (1 / 10 ^ 9)" "f32 (1 / 10 ^ 9) \<le> 1 / 2 ^ 29"
proof -
  have pos: "(0::real) < 1 / 10 ^ 9" by simp
  show "0 < f32 (1 / 10 ^ 9)" by (rule f32_positive [OF pos])
  have "(2::real) powr (- 30) \<le> 1 / 10 ^ 9" "(1::real) / 10 ^ 9 < 2 powr (- 30 + 1)"
    by (simp_all add: powr_neg_numeral)
  then have e: "\<lfloor>log 2 (1 / 10 ^ 9 :: real)\<rfloor> = - 30"
    using floor_log_eq_powr_iff [of "1 / 10 ^ 9 :: real" 2 "- 30"] by simp
  have "f32 (1 / 10 ^ 9) \<le> 2 powr (of_int \<lfloor>log 2 (1 / 10 ^ 9 :: real)\<rfloor> + 1)"
    by (rule f32_le_pow [OF pos])
  also have "\<dots> = 1 / 2 ^ 29" unfolding e by (simp add: powr_neg_numeral)
  finally show "f32 (1 / 10 ^ 9) \<le> 1 / 2 ^ 29" .
qed

lemma floored_le_one:
  assumes "0 \<le> p" and "p \<le> 1"
  shows "0 < f32 (p + f32 (1 / 10 ^ 9))" and "f32 (p + f32 (1 / 10 ^ 9)) \<le> 1"
proof -
  let ?x = "p + f32 (1 / 10 ^ 9)"
  have pos: "0 < ?x" using assms floor_bounds(1) by simp
  show "0 < f32 ?x" by (rule f32_positive [OF pos])
  show "f32 ?x \<le> 1"
  proof (cases "1 \<le> ?x")
    case True
    have "?x \<le> 1 + 1 / 2 ^ 29" using assms floor_bounds(2) by simp
    also have "\<dots> \<le> 1 + 1 / 2 ^ 25" by simp
    finally show ?thesis using f32_one [OF True] by simp
  next
    case False
    then have "log 2 ?x < 0" using pos by simp
    then have "\<lfloor>log 2 ?x\<rfloor> \<le> - 1" by linarith
    then have "of_int \<lfloor>log 2 ?x\<rfloor> + 1 \<le> (0::real)" by linarith
    then have "(2::real) powr (of_int \<lfloor>log 2 ?x\<rfloor> + 1) \<le> 2 powr 0"
      by (intro powr_mono) simp_all
    then show ?thesis using f32_le_pow [OF pos] by simp
  qed
qed

lemma floored_less_one:
  assumes "0 < p" and "p \<le> 1 / 2"
  shows "f32 (p + f32 (1 / 10 ^ 9)) < 1"
proof -
  let ?x = "p + f32 (1 / 10 ^ 9)"
  have pos: "0 < ?x" using assms floor_bounds(1) by simp
  have x: "?x \<le> 1 / 2 + 1 / 2 ^ 29" using assms floor_bounds(2) by simp
  then have "?x < 1" by simp
  then have "log 2 ?x < 0" using pos by simp
  then have "\<lfloor>log 2 ?x\<rfloor> \<le> - 1" by linarith
  then have "of_int \<lfloor>log 2 ?x\<rfloor> - 24 \<le> (- 25::real)" by linarith
  then have "(2::real) powr (of_int \<lfloor>log 2 ?x\<rfloor> - 24) \<le> 2 powr (- 25)"
    by (intro powr_mono) simp_all
  then have "\<bar>f32 ?x - ?x\<bar> \<le> 1 / 2 ^ 25"
    using f32_error [OF pos] by (simp add: powr_neg_numeral)
  then have "f32 ?x \<le> ?x + 1 / 2 ^ 25" by linarith
  also have "\<dots> \<le> 1 / 2 + 1 / 2 ^ 29 + 1 / 2 ^ 25" using x by simp
  also have "\<dots> < 1" by simp
  finally show ?thesis .
qed

lemma term_nonpos:
  assumes "0 \<le> p" and "p \<le> 1"
  shows "p * log 2 (f32 (p + f32 (1 / 10 ^ 9))) \<le> 0"
proof -
  have "log 2 (f32 (p + f32 (1 / 10 ^ 9))) \<le> 0"
    using floored_le_one [OF assms] by simp
  then show ?thesis using assms(1) by (simp add: mult_nonneg_nonpos)
qed

lemma term_one: "log 2 (f32 (1 + f32 (1 / 10 ^ 9))) = 0"
proof -
  have "1 + f32 (1 / 10 ^ 9) \<le> 1 + 1 / 2 ^ 29" using floor_bounds(2) by simp
  also have "\<dots> \<le> 1 + 1 / 2 ^ 25" by simp
  finally have "f32 (1 + f32 (1 / 10 ^ 9)) = 1"
    using floor_bounds(1) by (intro f32_one) simp_all
  then show ?thesis by simp
qed

lemma term_neg:
  assumes "0 < p" and "p \<le> 1 / 2"
  shows "p * log 2 (f32 (p + f32 (1 / 10 ^ 9))) < 0"
proof -
  have "0 < f32 (p + f32 (1 / 10 ^ 9))"
    using floored_le_one(1) [of p] assms by simp
  then have "log 2 (f32 (p + f32 (1 / 10 ^ 9))) < 0"
    using floored_less_one [OF assms] by simp
  then show ?thesis using assms(1) by (simp add: mult_pos_neg)
qed





section \<open>Arrays, borders and filters\<close>


lemma shape_height: "shape h w m \<Longrightarrow> height m = h"
  by (simp add: shape_def height_def)

lemma shape_width: "shape h w m \<Longrightarrow> 0 < h \<Longrightarrow> width m = w"
  by (cases m) (simp_all add: shape_def width_def)

lemma shape_map: "shape h w m \<Longrightarrow> shape h w (map (map f) m)"
  by (simp add: shape_def list_all_length)

lemma shape_map2: "shape h w X \<Longrightarrow> shape h w Y \<Longrightarrow> shape h w (map2 (map2 f) X Y)"
  by (simp add: shape_def list_all_length)

lemma shape_tabulate2: "shape h w (tabulate2 h w f)"
  by (simp add: shape_def tabulate2_def list_all_length)

lemma nth_tabulate2: "i < h \<Longrightarrow> j < w \<Longrightarrow> tabulate2 h w f ! i ! j = f i j"
  by (simp add: tabulate2_def)

lemma nth_map_map: "shape h w m \<Longrightarrow> i < h \<Longrightarrow> j < w \<Longrightarrow> map (map f) m ! i ! j = f (m ! i ! j)"
  by (simp add: shape_def list_all_length)

lemma nth_map2_map2:
  "shape h w X \<Longrightarrow> shape h w Y \<Longrightarrow> i < h \<Longrightarrow> j < w \<Longrightarrow>
     map2 (map2 f) X Y ! i ! j = f (X ! i ! j) (Y ! i ! j)"
  by (simp add: shape_def list_all_length)

lemma decoded_shape: "decoded m \<Longrightarrow> shape (height m) (width m) m"
  by (simp add: decoded_def)

lemma height_map: "height (map (map f) m) = height m"
  by (simp add: height_def)

lemma width_map: "width (map (map f) m) = width m"
  by (cases m) (simp_all add: width_def)

lemma borderInterpolate_inside: "i < len \<Longrightarrow> borderInterpolate (int i) len = i"
  by (cases "len = 1") (auto simp: borderInterpolate_def Let_def)




lemma shape_filter2D: "shape (height src) (width src) (filter2D src ker)"
  by (simp add: filter2D_def Let_def shape_tabulate2)

lemma nth_filter2D:
  "i < height src \<Longrightarrow> j < width src \<Longrightarrow>
     filter2D src ker ! i ! j =
       (\<Sum>u\<leftarrow>[0..<height ker]. \<Sum>v\<leftarrow>[0..<width ker].
          ker ! u ! v *
          src ! borderInterpolate (int i + int u - int (height ker div 2)) (height src)
              ! borderInterpolate (int j + int v - int (width ker div 2)) (width src))"
  by (simp add: filter2D_def Let_def nth_tabulate2)

lemma box_kernel:
  assumes "0 < k"
  shows "height (np_div (np_ones k) s) = k" "width (np_div (np_ones k) s) = k"
    "u < k \<Longrightarrow> v < k \<Longrightarrow> np_div (np_ones k) s ! u ! v = f64 (1 / s)"
proof -
  show "height (np_div (np_ones k) s) = k"
    by (simp add: np_div_def np_ones_def height_def)
  show "width (np_div (np_ones k) s) = k"
    using assms by (cases k) (simp_all add: np_div_def np_ones_def width_def)
  show "u < k \<Longrightarrow> v < k \<Longrightarrow> np_div (np_ones k) s ! u ! v = f64 (1 / s)"
    by (simp add: np_div_def np_ones_def)
qed

lemma filter2D_box:
  assumes "0 < k" "i < height X" "j < width X"
  shows "filter2D X (np_div (np_ones k) (real_of_int ((int k)\<^sup>2))) ! i ! j = local_mean k X i j"
proof -
  let ?s = "real_of_int ((int k)\<^sup>2)"
  let ?K = "np_div (np_ones k) ?s"
  let ?f = "\<lambda>u v. X ! borderInterpolate (int i + int u - int (k div 2)) (height X)
          ! borderInterpolate (int j + int v - int (k div 2)) (width X)"
  have s: "?s = real (k * k)" by (simp add: power2_eq_square)
  have "filter2D X ?K ! i ! j = (\<Sum>u\<leftarrow>[0..<k]. \<Sum>v\<leftarrow>[0..<k]. ?K ! u ! v * ?f u v)"
    using assms by (simp add: nth_filter2D box_kernel)
  also have "\<dots> = (\<Sum>u\<leftarrow>[0..<k]. \<Sum>v\<leftarrow>[0..<k]. f64 (1 / ?s) * ?f u v)"
    using assms(1)
    by (intro arg_cong [where f = sum_list] map_cong refl) (simp add: box_kernel)
  also have "\<dots> = local_mean k X i j"
    unfolding local_mean_def s ..
  finally show ?thesis .
qed

section \<open>Unfolding the function\<close>

lemma shape_np:
  "shape h w X \<Longrightarrow> shape h w (np_abs X)"
  "shape h w X \<Longrightarrow> shape h w (np_scale s X)"
  "shape h w X \<Longrightarrow> shape h w (np_full_like X s)"
  "shape h w X \<Longrightarrow> shape h w Y \<Longrightarrow> shape h w (np_sub X Y)"
  "shape h w X \<Longrightarrow> shape h w Y \<Longrightarrow> shape h w (np_add X Y)"
  by (simp_all add: np_abs_def np_scale_def np_full_like_def np_sub_def np_add_def
      shape_map shape_map2)

lemma nth_np:
  "shape h w X \<Longrightarrow> i < h \<Longrightarrow> j < w \<Longrightarrow> np_abs X ! i ! j = \<bar>X ! i ! j\<bar>"
  "shape h w X \<Longrightarrow> i < h \<Longrightarrow> j < w \<Longrightarrow> np_scale s X ! i ! j = s * X ! i ! j"
  "shape h w X \<Longrightarrow> i < h \<Longrightarrow> j < w \<Longrightarrow> np_full_like X s ! i ! j = s"
  "shape h w X \<Longrightarrow> shape h w Y \<Longrightarrow> i < h \<Longrightarrow> j < w \<Longrightarrow>
     np_sub X Y ! i ! j = X ! i ! j - Y ! i ! j"
  "shape h w X \<Longrightarrow> shape h w Y \<Longrightarrow> i < h \<Longrightarrow> j < w \<Longrightarrow>
     np_add X Y ! i ! j = X ! i ! j + Y ! i ! j"
  by (simp_all add: np_abs_def np_scale_def np_full_like_def np_sub_def np_add_def
      nth_map_map nth_map2_map2)

lemma shape_lab:
  assumes "decoded bgr"
  shows "shape (height bgr) (width bgr) (lab_L lib bgr)"
    "shape (height bgr) (width bgr) (lab_a lib bgr)"
    "shape (height bgr) (width bgr) (lab_b lib bgr)"
  using decoded_shape [OF assms]
  by (simp_all add: lab_L_def lab_a_def lab_b_def cvtColor_BGR2RGB_def shape_map)

lemma dims_lab:
  "height (lab_L lib bgr) = height bgr" "width (lab_L lib bgr) = width bgr"
  "height (lab_a lib bgr) = height bgr" "width (lab_a lib bgr) = width bgr"
  "height (lab_b lib bgr) = height bgr" "width (lab_b lib bgr) = width bgr"
  by (simp_all add: lab_L_def lab_a_def lab_b_def cvtColor_BGR2RGB_def height_map width_map)

lemma shape_filter2D_lab:
  assumes "decoded bgr"
  shows "shape (height bgr) (width bgr) (filter2D (lab_L lib bgr) K)"
    "shape (height bgr) (width bgr) (filter2D (lab_a lib bgr) K)"
    "shape (height bgr) (width bgr) (filter2D (lab_b lib bgr) K)"
    "shape (height bgr) (width bgr) (Laplacian (lab_L lib bgr))"
  using shape_filter2D [of "lab_L lib bgr"] shape_filter2D [of "lab_a lib bgr"]
    shape_filter2D [of "lab_b lib bgr"]
  by (simp_all add: dims_lab Laplacian_def)

lemma compute_unreadable:
  "imread fs path = None \<Longrightarrow>
     compute_aesthetic_charge lib fs path k ws = Inl (CvError ''cvtColor'')"
  by (simp add: compute_aesthetic_charge_def)

lemma compute_five:
  assumes "imread fs path = Some bgr" and "decoded bgr" and "0 < k"
  shows "compute_aesthetic_charge lib fs path k [w1, w2, w3, w4, w5] =
    Inr (np_add (np_add (np_add (np_add
           (np_scale w1 (np_abs (np_sub (lab_L lib bgr)
              (filter2D (lab_L lib bgr) (np_div (np_ones (nat k)) (real_of_int (k\<^sup>2)))))))
           (np_scale w2 (np_abs (np_sub (lab_a lib bgr)
              (filter2D (lab_a lib bgr) (np_div (np_ones (nat k)) (real_of_int (k\<^sup>2))))))))
           (np_scale w3 (np_abs (np_sub (lab_b lib bgr)
              (filter2D (lab_b lib bgr) (np_div (np_ones (nat k)) (real_of_int (k\<^sup>2))))))))
           (np_scale w4 (np_abs (Laplacian (lab_L lib bgr)))))
           (np_scale w5 (np_full_like (lab_L lib bgr) (entropy_val lib bgr))),
         cvtColor_BGR2RGB bgr)"
  using assms
  by (simp add: compute_aesthetic_charge_def decoded_def Let_def lab_L_def lab_a_def lab_b_def
      entropy_val_def)


lemma filter2D_box_int:
  assumes "0 < k" "i < height X" "j < width X"
  shows "filter2D X (np_div (np_ones (nat k)) ((real_of_int k)\<^sup>2)) ! i ! j =
    local_mean (nat k) X i j"
  using filter2D_box [of "nat k" i X j] assms by simp

lemma compute_pixels:
  assumes "imread fs path = Some bgr" and "decoded bgr" and "0 < k"
  shows "\<exists>q. compute_aesthetic_charge lib fs path k [w1, w2, w3, w4, w5] =
            Inr (q, cvtColor_BGR2RGB bgr) \<and>
          shape (height bgr) (width bgr) q \<and>
          (\<forall>i<height bgr. \<forall>j<width bgr.
             q ! i ! j =
               w1 * \<bar>lab_L lib bgr ! i ! j - local_mean (nat k) (lab_L lib bgr) i j\<bar> +
               w2 * \<bar>lab_a lib bgr ! i ! j - local_mean (nat k) (lab_a lib bgr) i j\<bar> +
               w3 * \<bar>lab_b lib bgr ! i ! j - local_mean (nat k) (lab_b lib bgr) i j\<bar> +
               w4 * \<bar>Laplacian (lab_L lib bgr) ! i ! j\<bar> +
               w5 * entropy_val lib bgr)"
proof -
  let ?h = "height bgr" and ?w = "width bgr"
  note sh = shape_lab [OF assms(2), of lib] shape_filter2D_lab [OF assms(2), of lib]
  note at = nth_np [where h = ?h and w = ?w]
  show ?thesis
    unfolding compute_five [OF assms]
    using assms(3)
    by (simp add: sh shape_np at filter2D_box_int dims_lab)
qed

lemma compute_unpack:
  assumes "imread fs path = Some bgr" and "decoded bgr" and "0 < k" and "length ws \<noteq> 5"
  shows "compute_aesthetic_charge lib fs path k ws =
    Inl (ValueError (if length ws < 5 then ''not enough values to unpack''
                     else ''too many values to unpack''))"
  using assms
  by (auto simp: compute_aesthetic_charge_def decoded_def Let_def split: list.splits)

lemma compute_kernel_size:
  assumes "imread fs path = Some bgr" and "decoded bgr"
  shows "k < 0 \<Longrightarrow> compute_aesthetic_charge lib fs path k ws =
      Inl (ValueError ''negative dimensions are not allowed'')"
    and "k = 0 \<Longrightarrow> compute_aesthetic_charge lib fs path k ws = Inl (CvError ''filter2D'')"
  using assms by (simp_all add: compute_aesthetic_charge_def decoded_def Let_def)

lemma length_five: "length ws = 5 \<Longrightarrow> \<exists>w1 w2 w3 w4 w5. ws = [w1, w2, w3, w4, w5]"
  by (auto simp: length_Suc_conv eval_nat_numeral)


lemma dims_flat: "height (flat h w px) = h" "0 < h \<Longrightarrow> width (flat h w px) = w"
proof -
  show "height (flat h w px) = h" by (simp add: flat_def height_def)
  show "0 < h \<Longrightarrow> width (flat h w px) = w"
    by (cases h) (simp_all add: flat_def width_def)
qed

lemma shape_flat: "shape h w (flat h w px)"
  by (simp add: shape_def flat_def list_all_iff)

lemma decoded_flat: "0 < h \<Longrightarrow> 0 < w \<Longrightarrow> decoded (flat h w px)"
  by (simp add: decoded_def dims_flat shape_flat)

lemma decoded_gray_4x4: "decoded gray_4x4"
  by (simp add: gray_4x4_def decoded_flat)

lemma imread_one_file: "imread (one_file name img) name = Some img"
  by (simp add: imread_def one_file_def)

lemma imread_no_file: "imread no_file name = None"
  by (simp add: imread_def no_file_def)

lemma compute_empty:
  "imread fs path = Some bgr \<Longrightarrow> height bgr = 0 \<or> width bgr = 0 \<Longrightarrow>
     compute_aesthetic_charge lib fs path k ws = Inl (CvError ''cvtColor'')"
  by (simp add: compute_aesthetic_charge_def)

section \<open>Histogram and entropy\<close>

lemma term_zero: "(0::real) * log 2 (f32 (0 + f32 (1 / 10 ^ 9))) = 0"
  by simp

lemma terms_nonpos:
  assumes "\<And>v. v \<in> A \<Longrightarrow> 0 \<le> p v \<and> p v \<le> 1"
  shows "(\<Sum>v\<in>A. p v * log 2 (f32 (p v + f32 (1 / 10 ^ 9)))) \<le> 0"
  by (intro sum_nonpos term_nonpos) (use assms in auto)

lemma terms_zero_iff:
  fixes p :: "nat \<Rightarrow> real"
  assumes fin: "finite A" and nn: "\<And>v. v \<in> A \<Longrightarrow> 0 \<le> p v" and one: "sum p A = 1"
  shows "(\<Sum>v\<in>A. p v * log 2 (f32 (p v + f32 (1 / 10 ^ 9)))) = 0 \<longleftrightarrow> (\<exists>v\<in>A. p v = 1)"
proof
  let ?T = "\<lambda>x::real. x * log 2 (f32 (x + f32 (1 / 10 ^ 9)))"
  have le1: "p v \<le> 1" if "v \<in> A" for v
    using member_le_sum [of v A p] that nn fin one by auto
  {
    assume "\<exists>v\<in>A. p v = 1"
    then obtain v0 where v0: "v0 \<in> A" "p v0 = 1" by blast
    have "sum p A = p v0 + sum p (A - {v0})" using fin v0 by (simp add: sum.remove)
    then have "sum p (A - {v0}) = 0" using one v0 by simp
    then have rest: "p v = 0" if "v \<in> A - {v0}" for v
      using that nn fin sum_nonneg_eq_0_iff [of "A - {v0}" p] by auto
    have "?T (p v) = 0" if "v \<in> A" for v
    proof (cases "v = v0")
      case True
      then show ?thesis using v0 term_one by simp
    next
      case False
      then show ?thesis using rest that by simp
    qed
    then show "(\<Sum>v\<in>A. ?T (p v)) = 0" by (intro sum.neutral ballI)
  }
  {
    assume z: "(\<Sum>v\<in>A. ?T (p v)) = 0"
    have np: "0 \<le> - ?T (p v)" if "v \<in> A" for v
      using term_nonpos [of "p v"] nn le1 that by simp
    have "(\<Sum>v\<in>A. - ?T (p v)) = 0" using z by (simp add: sum_negf)
    then have all0: "?T (p v) = 0" if "v \<in> A" for v
      using sum_nonneg_eq_0_iff [OF fin, of "\<lambda>v. - ?T (p v)"] np that by simp
    have small: "p v = 0 \<or> 1 / 2 < p v" if "v \<in> A" for v
    proof (rule ccontr)
      assume "\<not> (p v = 0 \<or> 1 / 2 < p v)"
      then have "0 < p v" "p v \<le> 1 / 2" using nn that by (auto simp: less_le)
      then have "?T (p v) < 0" by (rule term_neg)
      then show False using all0 [OF that] by linarith
    qed
    obtain v1 where v1: "v1 \<in> A" "p v1 \<noteq> 0"
      using one by (metis sum.neutral zero_neq_one)
    then have big: "1 / 2 < p v1" using small by blast
    have split: "sum p A = p v1 + sum p (A - {v1})" using fin v1 by (simp add: sum.remove)
    have "p v = 0" if "v \<in> A - {v1}" for v
    proof (rule ccontr)
      assume "p v \<noteq> 0"
      then have "1 / 2 < p v" using small that by blast
      moreover have "p v \<le> sum p (A - {v1})"
        using member_le_sum [of v "A - {v1}" p] that nn fin by auto
      ultimately show False using big split one by simp
    qed
    then have "sum p (A - {v1}) = 0" by simp
    then have "p v1 = 1" using split one by simp
    then show "\<exists>v\<in>A. p v = 1" using v1 by blast
  }
qed


lemma count_all_iff: "count_list xs x = length xs \<longleftrightarrow> (\<forall>y\<in>set xs. y = x)"
proof (induction xs)
  case Nil
  then show ?case by simp
next
  case (Cons y ys)
  have "count_list ys x \<le> length ys" by (rule count_le_length)
  then show ?case using Cons by auto
qed

lemma bins_total:
  "(\<Sum>v\<in>{0..<256}. count_list (map unat (px :: 8 word list)) v) = length px"
proof -
  have "unat x < 256" for x :: "8 word"
    using unsigned_less [of x, where 'a = nat] by simp
  then have "set (map unat px) \<subseteq> {0..<256}" by auto
  then show ?thesis using sum_count_set [of "map unat px" "{0..<256}"] by simp
qed

lemma calcHist_sum: "sum_list (calcHist gray) = real (length (concat gray))"
proof -
  have "sum_list (calcHist gray) = (\<Sum>v\<in>{0..<256}. real (count_list (map unat (concat gray)) v))"
    unfolding calcHist_def by (simp add: interv_sum_list_conv_sum_set_nat comp_def)
  also have "\<dots> = real (\<Sum>v\<in>{0..<256}. count_list (map unat (concat gray)) v)" by simp
  finally show ?thesis by (simp only: bins_total)
qed

lemma entropy_as_sum:
  "entropy_of (normalise (calcHist gray)) =
     - (\<Sum>v\<in>{0..<256}.
          (real (count_list (map unat (concat gray)) v) / real (length (concat gray))) *
          log 2 (f32 (real (count_list (map unat (concat gray)) v) / real (length (concat gray))
                      + f32 (1 / 10 ^ 9))))"
proof -
  let ?c = "\<lambda>v. real (count_list (map unat (concat gray)) v)"
  let ?T = "\<lambda>x::real. x * log 2 (f32 (x + f32 (1 / 10 ^ 9)))"
  have "normalise (calcHist gray) = map (\<lambda>v. ?c v / real (length (concat gray))) [0..<256]"
    unfolding normalise_def calcHist_sum by (simp add: calcHist_def)
  then have "entropy_of (normalise (calcHist gray)) =
      - sum_list (map (\<lambda>v. ?T (?c v / real (length (concat gray)))) [0..<256])"
    by (simp add: entropy_of_def comp_def)
  then show ?thesis by (simp add: interv_sum_list_conv_sum_set_nat)
qed


lemma bin_probabilities:
  fixes px :: "8 word list"
  assumes "px \<noteq> []"
  defines "p \<equiv> \<lambda>v. real (count_list (map unat px) v) / real (length px)"
  shows "0 \<le> p v" and "p v \<le> 1" and "sum p {0..<256} = 1"
    and "p v = 1 \<longleftrightarrow> count_list (map unat px) v = length px"
proof -
  have n: "0 < real (length px)" using assms(1) by simp
  show "0 \<le> p v" by (simp add: p_def)
  have "count_list (map unat px) v \<le> length (map unat px)" by (rule count_le_length)
  then show "p v \<le> 1" using n by (simp add: p_def)
  have "sum p {0..<256} = real (\<Sum>v\<in>{0..<256}. count_list (map unat px) v) / real (length px)"
    by (simp add: p_def sum_divide_distrib)
  then show "sum p {0..<256} = 1" using n by (simp only: bins_total) simp
  show "p v = 1 \<longleftrightarrow> count_list (map unat px) v = length px"
    using n by (auto simp: p_def)
qed

lemma entropy_nonneg:
  assumes "concat gray \<noteq> []"
  shows "0 \<le> entropy_of (normalise (calcHist gray))"
  unfolding entropy_as_sum
  using terms_nonpos [of "{0..<256}"
      "\<lambda>v. real (count_list (map unat (concat gray)) v) / real (length (concat gray))"]
    bin_probabilities(1,2) [OF assms]
  by simp

lemma entropy_zero_iff:
  assumes "concat gray \<noteq> []"
  shows "entropy_of (normalise (calcHist gray)) = 0 \<longleftrightarrow>
    (\<exists>v<256. count_list (map unat (concat gray)) v = length (concat gray))"
proof -
  let ?p = "\<lambda>v. real (count_list (map unat (concat gray)) v) / real (length (concat gray))"
  have "entropy_of (normalise (calcHist gray)) = 0 \<longleftrightarrow>
      (\<Sum>v\<in>{0..<256}. ?p v * log 2 (f32 (?p v + f32 (1 / 10 ^ 9)))) = 0"
    unfolding entropy_as_sum by simp
  also have "\<dots> \<longleftrightarrow> (\<exists>v\<in>{0..<256}. ?p v = 1)"
    by (rule terms_zero_iff) (simp_all add: bin_probabilities(3) [OF assms])
  also have "\<dots> \<longleftrightarrow> (\<exists>v<256. count_list (map unat (concat gray)) v = length (concat gray))"
    using bin_probabilities(4) [OF assms] by auto
  finally show ?thesis .
qed

lemma uniform_iff:
  fixes px :: "8 word list"
  assumes "px \<noteq> []"
  shows "(\<exists>v<256. count_list (map unat px) v = length px) \<longleftrightarrow> (\<exists>g. \<forall>x\<in>set px. x = g)"
proof
  assume "\<exists>v<256. count_list (map unat px) v = length px"
  then obtain v where "count_list (map unat px) v = length px" by auto
  then have "count_list (map unat px) v = length (map unat px)" by simp
  then have "\<forall>y\<in>set (map unat px). y = v" by (simp only: count_all_iff)
  then have "\<forall>x\<in>set px. unat x = v" by simp
  then have "\<forall>x\<in>set px. x = word_of_nat v" by auto
  then show "\<exists>g. \<forall>x\<in>set px. x = g" by blast
next
  assume "\<exists>g. \<forall>x\<in>set px. x = g"
  then obtain g where "\<forall>x\<in>set px. x = g" by blast
  then have "\<forall>y\<in>set (map unat px). y = unat g" by auto
  then have "count_list (map unat px) (unat g) = length (map unat px)"
    by (simp only: count_all_iff)
  moreover have "unat g < 256" using unsigned_less [of g, where 'a = nat] by simp
  ultimately show "\<exists>v<256. count_list (map unat px) v = length px" by auto
qed

lemma occupied_iff:
  fixes px :: "8 word list"
  assumes "px \<noteq> []"
  shows "occupied_bins (map (\<lambda>v. real (count_list (map unat px) v)) [0..<256]) = 1 \<longleftrightarrow>
    (\<exists>v<256. count_list (map unat px) v = length px)"
proof -
  let ?c = "count_list (map unat px)"
  let ?S = "{v. v < 256 \<and> 0 < ?c v}"
  have occ: "occupied_bins (map (\<lambda>v. real (?c v)) [0..<256]) = card ?S"
    unfolding occupied_bins_def length_filter_conv_card
    by (rule arg_cong [where f = card]) auto
  have fin: "finite ?S" by simp
  have tot: "sum ?c {0..<256} = length px" by (rule bins_total)
  have n: "0 < length px" using assms by simp
  show ?thesis
  proof
    assume "occupied_bins (map (\<lambda>v. real (?c v)) [0..<256]) = 1"
    then have "card ?S = Suc 0" using occ by simp
    then obtain v0 where S: "?S = {v0}" by (auto simp: card_1_singleton_iff)
    then have v0: "v0 < 256" "0 < ?c v0" by auto
    have "?c v = 0" if "v \<in> {0..<256} - {v0}" for v
    proof -
      have "v \<notin> {v0}" using that by simp
      then have "v \<notin> ?S" by (subst S)
      then show ?thesis using that by simp
    qed
    then have "sum ?c ({0..<256} - {v0}) = 0" by simp
    moreover have "sum ?c {0..<256} = ?c v0 + sum ?c ({0..<256} - {v0})"
      using v0 by (simp add: sum.remove)
    ultimately have "?c v0 = length px" using tot by simp
    then show "\<exists>v<256. ?c v = length px" using v0 by blast
  next
    assume "\<exists>v<256. ?c v = length px"
    then obtain v0 where v0: "v0 < 256" "?c v0 = length px" by blast
    have "sum ?c {0..<256} = ?c v0 + sum ?c ({0..<256} - {v0})"
      using v0 by (simp add: sum.remove)
    then have "sum ?c ({0..<256} - {v0}) = 0" using tot v0 by simp
    then have rest: "?c v = 0" if "v \<in> {0..<256} - {v0}" for v
      using that by simp
    have "?S = {v0}"
    proof (intro equalityI subsetI)
      fix v assume "v \<in> ?S"
      then have "v < 256" "0 < ?c v" by simp_all
      then have "v = v0" using rest [of v] by auto
      then show "v \<in> {v0}" by simp
    next
      fix v assume "v \<in> {v0}"
      then show "v \<in> ?S" using v0 n by simp
    qed
    then show "occupied_bins (map (\<lambda>v. real (?c v)) [0..<256]) = 1" using occ by simp
  qed
qed

section \<open>Stencil, constant channels and monotonicity\<close>

lemma nth_Laplacian:
  assumes "i < height X" and "j < width X"
  shows "Laplacian X ! i ! j =
    X ! borderInterpolate (int i - 1) (height X) ! j +
    X ! i ! borderInterpolate (int j - 1) (width X) -
    4 * X ! i ! j +
    X ! i ! borderInterpolate (int j + 1) (width X) +
    X ! borderInterpolate (int i + 1) (height X) ! j"
proof -
  have k: "height [[0, 1, 0], [1, - 4, 1], [0, 1, 0::real]] = 3"
    "width [[0, 1, 0], [1, - 4, 1], [0, 1, 0::real]] = 3"
    by (simp_all add: height_def width_def)
  have three: "[0..<3] = [0, 1, 2]" by (simp add: upt_rec)
  have mid: "borderInterpolate (int i) (height X) = i" "borderInterpolate (int j) (width X) = j"
    using assms by (simp_all add: borderInterpolate_inside)
  show ?thesis
    unfolding Laplacian_def nth_filter2D [OF assms] k three
    by (simp add: mid add.commute)
qed



lemma decoded_pixels: "decoded m \<Longrightarrow> concat (map (map f) m) \<noteq> []"
  by (cases m) (auto simp: decoded_def height_def width_def)


lemma entropy_val_nonneg: "decoded bgr \<Longrightarrow> 0 \<le> entropy_val lib bgr"
  unfolding entropy_val_def cvtColor_BGR2GRAY_def
  by (intro entropy_nonneg decoded_pixels)

lemma pixels_mono:
  assumes "imread fs path = Some bgr" and "decoded bgr" and "0 < k"
    and "w1 \<le> v1" and "w2 \<le> v2" and "w3 \<le> v3" and "w4 \<le> v4" and "w5 \<le> v5"
  shows "\<exists>q q'. compute_aesthetic_charge lib fs path k [w1, w2, w3, w4, w5] =
              Inr (q, cvtColor_BGR2RGB bgr) \<and>
            compute_aesthetic_charge lib fs path k [v1, v2, v3, v4, v5] =
              Inr (q', cvtColor_BGR2RGB bgr) \<and>
            (\<forall>i<height bgr. \<forall>j<width bgr. q ! i ! j \<le> q' ! i ! j)"
proof -
  obtain q where q: "compute_aesthetic_charge lib fs path k [w1, w2, w3, w4, w5] =
      Inr (q, cvtColor_BGR2RGB bgr)"
    and px: "\<And>i j. i < height bgr \<Longrightarrow> j < width bgr \<Longrightarrow>
       q ! i ! j =
         w1 * \<bar>lab_L lib bgr ! i ! j - local_mean (nat k) (lab_L lib bgr) i j\<bar> +
         w2 * \<bar>lab_a lib bgr ! i ! j - local_mean (nat k) (lab_a lib bgr) i j\<bar> +
         w3 * \<bar>lab_b lib bgr ! i ! j - local_mean (nat k) (lab_b lib bgr) i j\<bar> +
         w4 * \<bar>Laplacian (lab_L lib bgr) ! i ! j\<bar> +
         w5 * entropy_val lib bgr"
    using compute_pixels [OF assms(1-3), of lib w1 w2 w3 w4 w5] by blast
  obtain q' where q': "compute_aesthetic_charge lib fs path k [v1, v2, v3, v4, v5] =
      Inr (q', cvtColor_BGR2RGB bgr)"
    and px': "\<And>i j. i < height bgr \<Longrightarrow> j < width bgr \<Longrightarrow>
       q' ! i ! j =
         v1 * \<bar>lab_L lib bgr ! i ! j - local_mean (nat k) (lab_L lib bgr) i j\<bar> +
         v2 * \<bar>lab_a lib bgr ! i ! j - local_mean (nat k) (lab_a lib bgr) i j\<bar> +
         v3 * \<bar>lab_b lib bgr ! i ! j - local_mean (nat k) (lab_b lib bgr) i j\<bar> +
         v4 * \<bar>Laplacian (lab_L lib bgr) ! i ! j\<bar> +
         v5 * entropy_val lib bgr"
    using compute_pixels [OF assms(1-3), of lib v1 v2 v3 v4 v5] by blast
  have e: "0 \<le> entropy_val lib bgr" by (rule entropy_val_nonneg [OF assms(2)])
  have "q ! i ! j \<le> q' ! i ! j" if "i < height bgr" "j < width bgr" for i j
    unfolding px [OF that] px' [OF that]
    by (intro add_mono mult_right_mono assms(4-8) e abs_ge_zero)
  then show ?thesis using q q' by blast
qed

lemma decoded_two_pixels: "decoded two_pixels"
  by (simp add: two_pixels_def decoded_def height_def width_def shape_def)






section \<open>Colour conversion, exact kernel entries and the sample inputs\<close>










section \<open>Properties of the specification\<close>



text \<open>
  C2, as the source has it. Nothing is checked before the computation and there is no
  \<open>InvalidParameter\<close> error. For a decoded image, a call with \<open>kernel_size \<le> 0\<close> or with a
  weights sequence that does not have five entries fails, by an exception of the call that
  cannot go on, and returns no field: a negative \<open>kernel_size\<close> (down to \<open>- 2\<^sup>6\<^sup>3\<close>) fails
  in \<^verbatim>\<open>np.ones\<close> with \<open>ValueError\<close>, \<open>kernel_size = 0\<close> fails in \<^verbatim>\<open>cv2.filter2D\<close> with
  \<open>cv2.error\<close>, and with a \<open>kernel_size\<close> from 1 to 5 fewer than five weights fail at the
  unpacking with the \<open>ValueError\<close> \<^verbatim>\<open>not enough values to unpack\<close> and more than five with
  the \<open>ValueError\<close> \<^verbatim>\<open>too many values to unpack\<close>. Every \<open>kernel_size\<close> from 1 to 5, even or
  odd, with five weights of any sign returns a field.
\<close>

theorem parameters_not_checked:
  assumes "imread fs image_path = Some bgr" and "decoded bgr"
  shows "(kernel_size \<le> 0 \<or> length weights \<noteq> 5 \<longrightarrow>
            isl (compute_aesthetic_charge lib fs image_path kernel_size weights)) \<and>
         (- (2 ^ 63) \<le> kernel_size \<and> kernel_size < 0 \<longrightarrow>
            compute_aesthetic_charge lib fs image_path kernel_size weights =
              Inl (ValueError ''negative dimensions are not allowed'')) \<and>
         (kernel_size = 0 \<longrightarrow>
            compute_aesthetic_charge lib fs image_path kernel_size weights =
              Inl (CvError ''filter2D'')) \<and>
         (0 < kernel_size \<and> kernel_size \<le> 5 \<and> length weights < 5 \<longrightarrow>
            compute_aesthetic_charge lib fs image_path kernel_size weights =
              Inl (ValueError ''not enough values to unpack'')) \<and>
         (0 < kernel_size \<and> kernel_size \<le> 5 \<and> 5 < length weights \<longrightarrow>
            compute_aesthetic_charge lib fs image_path kernel_size weights =
              Inl (ValueError ''too many values to unpack'')) \<and>
         (0 < kernel_size \<and> kernel_size \<le> 5 \<and> length weights = 5 \<longrightarrow>
            \<not> isl (compute_aesthetic_charge lib fs image_path kernel_size weights))"
proof (intro conjI impI)
  assume "0 < kernel_size \<and> kernel_size \<le> 5 \<and> length weights = 5"
  then obtain w1 w2 w3 w4 w5 where k: "0 < kernel_size" and ws: "weights = [w1, w2, w3, w4, w5]"
    using length_five by blast
  show "\<not> isl (compute_aesthetic_charge lib fs image_path kernel_size weights)"
    unfolding ws compute_five [OF assms k] by simp
next
  assume n: "kernel_size \<le> 0 \<or> length weights \<noteq> 5"
  consider "kernel_size < 0" | "kernel_size = 0" | "0 < kernel_size" by linarith
  then show "isl (compute_aesthetic_charge lib fs image_path kernel_size weights)"
  proof cases
    case 1
    then show ?thesis by (simp add: compute_kernel_size [OF assms])
  next
    case 2
    then show ?thesis by (simp add: compute_kernel_size [OF assms])
  next
    case 3
    then have "length weights \<noteq> 5" using n by simp
    then show ?thesis by (simp add: compute_unpack [OF assms 3])
  qed
qed (simp_all add: compute_kernel_size [OF assms] compute_unpack [OF assms])

theorem parameters_not_checked_witness:
  "imread (one_file ''img.png'' gray_4x4) ''img.png'' = Some gray_4x4 \<and> decoded gray_4x4 \<and>
   compute_aesthetic_charge sample_lib (one_file ''img.png'' gray_4x4) ''img.png'' (- 1)
     default_weights = Inl (ValueError ''negative dimensions are not allowed'') \<and>
   compute_aesthetic_charge sample_lib (one_file ''img.png'' gray_4x4) ''img.png'' 0
     default_weights = Inl (CvError ''filter2D'') \<and>
   isl (compute_aesthetic_charge sample_lib (one_file ''img.png'' gray_4x4) ''img.png'' 7 [1, 1]) \<and>
   compute_aesthetic_charge sample_lib (one_file ''img.png'' gray_4x4) ''img.png'' 5
     [1, 1] = Inl (ValueError ''not enough values to unpack'') \<and>
   compute_aesthetic_charge sample_lib (one_file ''img.png'' gray_4x4) ''img.png'' 5
     [1, 1, 1, 1, 1, 1] = Inl (ValueError ''too many values to unpack'') \<and>
   \<not> isl (compute_aesthetic_charge sample_lib (one_file ''img.png'' gray_4x4) ''img.png'' 4
     default_weights)"
proof -
  note t = parameters_not_checked [OF imread_one_file decoded_gray_4x4, where lib = sample_lib]
  show ?thesis
    using t [where kernel_size = "- 1" and weights = default_weights]
      t [where kernel_size = 0 and weights = default_weights]
      t [where kernel_size = 7 and weights = "[1, 1]"]
      t [where kernel_size = 5 and weights = "[1, 1]"]
      t [where kernel_size = 5 and weights = "[1, 1, 1, 1, 1, 1]"]
      t [where kernel_size = 4 and weights = default_weights]
    by (simp add: imread_one_file decoded_gray_4x4 default_weights_def)
qed

text \<open>
  C2 as stated fails: \<open>kernel_size = 4\<close> with the default weights returns a field, and so
  does a negative weight.
\<close>

theorem even_kernel_accepted:
  "\<not> isl (compute_aesthetic_charge sample_lib (one_file ''img.png'' gray_4x4) ''img.png'' 4
            default_weights) \<and>
   \<not> isl (compute_aesthetic_charge sample_lib (one_file ''img.png'' gray_4x4) ''img.png'' 5
            [- 1, 1, 1, 1 / 2, 3 / 10])"
proof -
  have a: "(0::int) < 4" and b: "(0::int) < 5" by simp_all
  show ?thesis
    unfolding default_weights_def
    by (simp add: compute_five [OF imread_one_file decoded_gray_4x4 a]
        compute_five [OF imread_one_file decoded_gray_4x4 b])
qed




text \<open>
  C7, as the source has it. When \<^verbatim>\<open>cv2.imread\<close> cannot read or decode the file, or the
  array has no rows or no columns, the first colour conversion fails with OpenCV's
  \<open>cv2.error\<close>, whatever the kernel size and the weights are, and no field is returned.
\<close>

theorem unreadable_image_fails:
  assumes "imread fs image_path = None \<or>
    (\<exists>bgr. imread fs image_path = Some bgr \<and> (height bgr = 0 \<or> width bgr = 0))"
  shows "compute_aesthetic_charge lib fs image_path kernel_size weights =
    Inl (CvError ''cvtColor'')"
  using assms by (auto simp: compute_unreadable compute_empty)

theorem unreadable_image_fails_witness:
  "(imread no_file ''missing.png'' = None \<or>
    (\<exists>bgr. imread no_file ''missing.png'' = Some bgr \<and> (height bgr = 0 \<or> width bgr = 0))) \<and>
   compute_aesthetic_charge sample_lib no_file ''missing.png'' 5 default_weights =
     Inl (CvError ''cvtColor'')"
proof -
  have h: "imread no_file ''missing.png'' = None \<or>
    (\<exists>bgr. imread no_file ''missing.png'' = Some bgr \<and> (height bgr = 0 \<or> width bgr = 0))"
    by (simp add: imread_no_file)
  show ?thesis using h unreadable_image_fails [OF h] by simp
qed

text \<open>
  C7 as stated fails: the error of an unreadable file is \<open>cv2.error\<close> from
  \<^verbatim>\<open>cvtColor\<close>, not an \<open>InvalidInput\<close> error, and it is the same for every path, so it
  does not name the input.
\<close>

theorem no_InvalidInput_error:
  "compute_aesthetic_charge sample_lib no_file ''missing.png'' 5 default_weights =
     Inl (CvError ''cvtColor'') \<and>
   error_class (CvError ''cvtColor'') \<noteq> ''InvalidInput'' \<and>
   compute_aesthetic_charge sample_lib no_file ''other.png'' 5 default_weights =
     compute_aesthetic_charge sample_lib no_file ''missing.png'' 5 default_weights"
  by (simp add: compute_unreadable [OF imread_no_file])

text \<open>
  C3. For a decoded image, a kernel size of at least 1 and five weights that are all
  \<open>\<ge> 0\<close>, the call succeeds, the field has the height and the width of the image, and
  every value of the field is \<open>\<ge> 0\<close>.
\<close>

theorem field_shape_and_sign:
  assumes "imread fs image_path = Some bgr" and "decoded bgr" and "0 < kernel_size"
    and "0 \<le> w1" and "0 \<le> w2" and "0 \<le> w3" and "0 \<le> w4" and "0 \<le> w5"
  shows "\<exists>q rgb. compute_aesthetic_charge lib fs image_path kernel_size [w1, w2, w3, w4, w5] =
            Inr (q, rgb) \<and>
          height q = height bgr \<and> width q = width bgr \<and>
          shape (height bgr) (width bgr) q \<and>
          (\<forall>i<height bgr. \<forall>j<width bgr. 0 \<le> q ! i ! j)"
proof -
  obtain q where q: "compute_aesthetic_charge lib fs image_path kernel_size [w1, w2, w3, w4, w5] =
      Inr (q, cvtColor_BGR2RGB bgr)"
    and sh: "shape (height bgr) (width bgr) q"
    and px: "\<And>i j. i < height bgr \<Longrightarrow> j < width bgr \<Longrightarrow>
       q ! i ! j =
         w1 * \<bar>lab_L lib bgr ! i ! j - local_mean (nat kernel_size) (lab_L lib bgr) i j\<bar> +
         w2 * \<bar>lab_a lib bgr ! i ! j - local_mean (nat kernel_size) (lab_a lib bgr) i j\<bar> +
         w3 * \<bar>lab_b lib bgr ! i ! j - local_mean (nat kernel_size) (lab_b lib bgr) i j\<bar> +
         w4 * \<bar>Laplacian (lab_L lib bgr) ! i ! j\<bar> +
         w5 * entropy_val lib bgr"
    using compute_pixels [OF assms(1-3), of lib w1 w2 w3 w4 w5] by blast
  have e: "0 \<le> entropy_val lib bgr" by (rule entropy_val_nonneg [OF assms(2)])
  have "0 \<le> q ! i ! j" if "i < height bgr" "j < width bgr" for i j
    unfolding px [OF that]
    by (intro add_nonneg_nonneg mult_nonneg_nonneg assms(4-8) e abs_ge_zero)
  moreover have "height q = height bgr" "width q = width bgr"
    using sh assms(2) by (simp_all add: shape_height shape_width decoded_def)
  ultimately show ?thesis using q sh by blast
qed

theorem field_shape_and_sign_witness:
  "\<exists>q rgb. compute_aesthetic_charge sample_lib (one_file ''img.png'' two_pixels) ''img.png'' 5
              [1, 1, 1, 1 / 2, 3 / 10] = Inr (q, rgb) \<and>
          height q = height two_pixels \<and> width q = width two_pixels \<and>
          shape (height two_pixels) (width two_pixels) q \<and>
          (\<forall>i<height two_pixels. \<forall>j<width two_pixels. 0 \<le> q ! i ! j)"
proof -
  note d = decoded_two_pixels
  have k: "(0::int) < 5" by simp
  show ?thesis
    by (rule field_shape_and_sign [OF imread_one_file d k]) simp_all
qed

text \<open>
  C8. For a decoded image and a call that succeeds, replacing any one of the five weights
  by a larger value, the other four unchanged, does not decrease the field at any pixel.
\<close>

theorem weight_monotone:
  assumes "imread fs image_path = Some bgr" and "decoded bgr" and "0 < kernel_size"
    and "length weights = 5" and "n < 5" and "weights ! n \<le> x"
  shows "\<exists>q q' rgb.
           compute_aesthetic_charge lib fs image_path kernel_size weights = Inr (q, rgb) \<and>
           compute_aesthetic_charge lib fs image_path kernel_size (weights[n := x]) =
             Inr (q', rgb) \<and>
           (\<forall>i<height bgr. \<forall>j<width bgr. q ! i ! j \<le> q' ! i ! j)"
proof -
  obtain w1 w2 w3 w4 w5 where ws: "weights = [w1, w2, w3, w4, w5]"
    using length_five [OF assms(4)] by blast
  note mono = pixels_mono [OF assms(1-3), of _ _ _ _ _ _ _ _ _ _ lib]
  consider "n = 0" | "n = 1" | "n = 2" | "n = 3" | "n = 4" using assms(5) by linarith
  then show ?thesis
  proof cases
    case 1
    then have "w1 \<le> x" using assms(6) ws by simp
    from mono [OF this order_refl order_refl order_refl order_refl, of w2 w3 w4 w5]
    show ?thesis unfolding ws 1 by auto
  next
    case 2
    then have "w2 \<le> x" using assms(6) ws by simp
    from mono [OF order_refl this order_refl order_refl order_refl, of w1 w3 w4 w5]
    show ?thesis unfolding ws 2 by auto
  next
    case 3
    then have "w3 \<le> x" using assms(6) ws by simp
    from mono [OF order_refl order_refl this order_refl order_refl, of w1 w2 w4 w5]
    show ?thesis unfolding ws 3 by (auto simp: eval_nat_numeral)
  next
    case 4
    then have "w4 \<le> x" using assms(6) ws by (simp add: eval_nat_numeral)
    from mono [OF order_refl order_refl order_refl this order_refl, of w1 w2 w3 w5]
    show ?thesis unfolding ws 4 by (auto simp: eval_nat_numeral)
  next
    case 5
    then have "w5 \<le> x" using assms(6) ws by (simp add: eval_nat_numeral)
    from mono [OF order_refl order_refl order_refl order_refl this, of w1 w2 w3 w4]
    show ?thesis unfolding ws 5 by (auto simp: eval_nat_numeral)
  qed
qed

theorem weight_monotone_witness:
  "\<exists>q q' rgb.
     compute_aesthetic_charge sample_lib (one_file ''img.png'' two_pixels) ''img.png'' 5
       default_weights = Inr (q, rgb) \<and>
     compute_aesthetic_charge sample_lib (one_file ''img.png'' two_pixels) ''img.png'' 5
       (default_weights[4 := 1]) = Inr (q', rgb) \<and>
     (\<forall>i<height two_pixels. \<forall>j<width two_pixels. q ! i ! j \<le> q' ! i ! j)"
proof -
  note d = decoded_two_pixels
  have k: "(0::int) < 5" by simp
  show ?thesis
    by (rule weight_monotone [OF imread_one_file d k]) (simp_all add: default_weights_def)
qed





text \<open>
  C5. For a decoded image: with all weights but the last at zero the field is the constant
  \<open>w5 * entropy\<close>, the same at every pixel; the entropy scalar is minus the sum over the
  256 bins of \<open>p * log\<^sub>2 (p + floor)\<close>, where \<open>p\<close> is the bin count over the pixel count
  and the sum \<open>p + floor\<close> is the binary32 sum with the floor \<^verbatim>\<open>1e-9\<close>; the scalar is 0
  exactly when the histogram has a single occupied bin, which is exactly when all gray
  pixels are equal.
\<close>

theorem entropy_constant_field:
  assumes "imread fs image_path = Some bgr" and "decoded bgr" and "0 < kernel_size"
  shows "(\<exists>q rgb. compute_aesthetic_charge lib fs image_path kernel_size [0, 0, 0, 0, w5] =
             Inr (q, rgb) \<and>
           (\<forall>i<height bgr. \<forall>j<width bgr. q ! i ! j = w5 * entropy_val lib bgr)) \<and>
    entropy_val lib bgr =
      - (\<Sum>v\<in>{0..<256}.
           (real (count_list (map unat (concat (cvtColor_BGR2GRAY lib bgr))) v) /
              real (length (concat (cvtColor_BGR2GRAY lib bgr)))) *
           log 2 (f32 (real (count_list (map unat (concat (cvtColor_BGR2GRAY lib bgr))) v) /
                         real (length (concat (cvtColor_BGR2GRAY lib bgr)))
                       + f32 (1 / 10 ^ 9)))) \<and>
    (entropy_val lib bgr = 0 \<longleftrightarrow>
       occupied_bins (calcHist (cvtColor_BGR2GRAY lib bgr)) = 1) \<and>
    (occupied_bins (calcHist (cvtColor_BGR2GRAY lib bgr)) = 1 \<longleftrightarrow>
       (\<exists>g. \<forall>x\<in>set (concat (cvtColor_BGR2GRAY lib bgr)). x = g))"
proof (intro conjI)
  let ?gray = "cvtColor_BGR2GRAY lib bgr"
  have ne: "concat ?gray \<noteq> []"
    unfolding cvtColor_BGR2GRAY_def by (rule decoded_pixels [OF assms(2)])
  show "\<exists>q rgb. compute_aesthetic_charge lib fs image_path kernel_size [0, 0, 0, 0, w5] =
             Inr (q, rgb) \<and>
           (\<forall>i<height bgr. \<forall>j<width bgr. q ! i ! j = w5 * entropy_val lib bgr)"
    using compute_pixels [OF assms, of lib 0 0 0 0 w5] by auto
  show "entropy_val lib bgr =
      - (\<Sum>v\<in>{0..<256}.
           (real (count_list (map unat (concat ?gray)) v) / real (length (concat ?gray))) *
           log 2 (f32 (real (count_list (map unat (concat ?gray)) v) / real (length (concat ?gray))
                       + f32 (1 / 10 ^ 9))))"
    unfolding entropy_val_def by (rule entropy_as_sum)
  have occ: "occupied_bins (calcHist ?gray) = 1 \<longleftrightarrow>
      (\<exists>v<256. count_list (map unat (concat ?gray)) v = length (concat ?gray))"
    unfolding calcHist_def by (rule occupied_iff [OF ne])
  show "entropy_val lib bgr = 0 \<longleftrightarrow> occupied_bins (calcHist ?gray) = 1"
    unfolding entropy_val_def entropy_zero_iff [OF ne] occ ..
  show "occupied_bins (calcHist ?gray) = 1 \<longleftrightarrow> (\<exists>g. \<forall>x\<in>set (concat ?gray). x = g)"
    unfolding occ by (rule uniform_iff [OF ne])
qed

theorem entropy_constant_field_witness:
  "(\<exists>q rgb. compute_aesthetic_charge sample_lib (one_file ''img.png'' two_pixels) ''img.png'' 5
               [0, 0, 0, 0, 1] = Inr (q, rgb) \<and>
           (\<forall>i<height two_pixels. \<forall>j<width two_pixels.
              q ! i ! j = 1 * entropy_val sample_lib two_pixels)) \<and>
   entropy_val sample_lib two_pixels \<noteq> 0 \<and>
   entropy_val sample_lib gray_4x4 = 0"
proof -
  have k: "(0::int) < 5" by simp
  note two = entropy_constant_field [OF imread_one_file decoded_two_pixels k,
      of sample_lib "''img.png''" 1]
  note flat = entropy_constant_field [OF imread_one_file decoded_gray_4x4 k,
      of sample_lib "''img.png''" 1]
  have g2: "concat (cvtColor_BGR2GRAY sample_lib two_pixels) = [0, 255]"
    by (simp add: cvtColor_BGR2GRAY_def two_pixels_def sample_lib_def)
  have "\<not> (\<exists>g. \<forall>x\<in>set (concat (cvtColor_BGR2GRAY sample_lib two_pixels)). x = g)"
    unfolding g2 by auto
  then have a: "entropy_val sample_lib two_pixels \<noteq> 0" using two by blast
  have "cvtColor_BGR2GRAY sample_lib gray_4x4 = replicate 4 (replicate 4 128)"
    by (simp add: cvtColor_BGR2GRAY_def gray_4x4_def flat_def sample_lib_def)
  then have "\<forall>x\<in>set (concat (cvtColor_BGR2GRAY sample_lib gray_4x4)). x = 128" by auto
  then have "\<exists>g. \<forall>x\<in>set (concat (cvtColor_BGR2GRAY sample_lib gray_4x4)). x = g" by blast
  then have b: "entropy_val sample_lib gray_4x4 = 0" using flat by blast
  show ?thesis using two a b by blast
qed





text \<open>
  C10. For every kernel size of at least 1, the field for the weights \<open>(0, 0, 0, 1, 0)\<close>
  is the curvature map: at every pixel the absolute value of the sum of the four
  neighbours of the L channel (continued by reflection at the border) minus four times
  the pixel itself, that is of the 3 x 3 stencil \<open>[[0, 1, 0], [1, -4, 1], [0, 1, 0]]\<close>.
\<close>

theorem curvature_is_abs_stencil:
  assumes "imread fs image_path = Some bgr" and "decoded bgr" and "0 < kernel_size"
  shows "\<exists>q rgb. compute_aesthetic_charge lib fs image_path kernel_size [0, 0, 0, 1, 0] =
            Inr (q, rgb) \<and>
          (\<forall>i<height bgr. \<forall>j<width bgr.
             q ! i ! j =
               \<bar>lab_L lib bgr ! borderInterpolate (int i - 1) (height bgr) ! j +
                lab_L lib bgr ! i ! borderInterpolate (int j - 1) (width bgr) -
                4 * lab_L lib bgr ! i ! j +
                lab_L lib bgr ! i ! borderInterpolate (int j + 1) (width bgr) +
                lab_L lib bgr ! borderInterpolate (int i + 1) (height bgr) ! j\<bar> \<and>
             q ! i ! j = np_abs (Laplacian (lab_L lib bgr)) ! i ! j)"
proof -
  obtain q where q: "compute_aesthetic_charge lib fs image_path kernel_size [0, 0, 0, 1, 0] =
      Inr (q, cvtColor_BGR2RGB bgr)"
    and px: "\<And>i j. i < height bgr \<Longrightarrow> j < width bgr \<Longrightarrow>
       q ! i ! j = \<bar>Laplacian (lab_L lib bgr) ! i ! j\<bar>"
    using compute_pixels [OF assms, of lib 0 0 0 1 0] by auto
  have st: "Laplacian (lab_L lib bgr) ! i ! j =
      lab_L lib bgr ! borderInterpolate (int i - 1) (height bgr) ! j +
      lab_L lib bgr ! i ! borderInterpolate (int j - 1) (width bgr) -
      4 * lab_L lib bgr ! i ! j +
      lab_L lib bgr ! i ! borderInterpolate (int j + 1) (width bgr) +
      lab_L lib bgr ! borderInterpolate (int i + 1) (height bgr) ! j"
    if "i < height bgr" "j < width bgr" for i j
    using nth_Laplacian [of i "lab_L lib bgr" j] that by (simp add: dims_lab)
  have ab: "np_abs (Laplacian (lab_L lib bgr)) ! i ! j = \<bar>Laplacian (lab_L lib bgr) ! i ! j\<bar>"
    if "i < height bgr" "j < width bgr" for i j
    using nth_np(1) [OF shape_filter2D_lab(4) [OF assms(2), of lib] that] .
  show ?thesis using q px st ab by auto
qed

theorem curvature_is_abs_stencil_witness:
  "\<exists>q rgb. compute_aesthetic_charge sample_lib (one_file ''img.png'' two_pixels) ''img.png'' 5
             [0, 0, 0, 1, 0] = Inr (q, rgb) \<and>
          (\<forall>i<height two_pixels. \<forall>j<width two_pixels.
             q ! i ! j =
               \<bar>lab_L sample_lib two_pixels ! borderInterpolate (int i - 1) (height two_pixels) ! j +
                lab_L sample_lib two_pixels ! i ! borderInterpolate (int j - 1) (width two_pixels) -
                4 * lab_L sample_lib two_pixels ! i ! j +
                lab_L sample_lib two_pixels ! i ! borderInterpolate (int j + 1) (width two_pixels) +
                lab_L sample_lib two_pixels ! borderInterpolate (int i + 1) (height two_pixels) ! j\<bar> \<and>
             q ! i ! j = np_abs (Laplacian (lab_L sample_lib two_pixels)) ! i ! j)"
proof -
  have k: "(0::int) < 5" by simp
  show ?thesis by (rule curvature_is_abs_stencil [OF imread_one_file decoded_two_pixels k])
qed

end
